theory Spec2Isabelle
  imports Main
begin

section \<open>JavaScript strings\<close>

text \<open>
  A JavaScript string is a sequence of code units and is modelled as a \<^typ>\<open>string\<close>,
  one \<^typ>\<open>char\<close> for one code unit (the code units below 256).  \<open>s.length\<close> is
  \<^term>\<open>length s\<close>, \<open>s.substring(0, n)\<close> is \<^term>\<open>take n s\<close>, \<open>a + b\<close> is
  \<^term>\<open>a @ b\<close>, and a string is falsy exactly when it is empty.
\<close>

definition is_js_space :: "char \<Rightarrow> bool" where
  \<comment> \<open>the white space and line terminators removed by \<open>String.prototype.trim\<close>:
      TAB, LF, VT, FF, CR, SPACE, NBSP\<close>
  "is_js_space c =
     (c \<in> set [CHR 0x09, CHR 0x0A, CHR 0x0B, CHR 0x0C, CHR 0x0D, CHR 0x20, CHR 0xA0])"

definition trim :: "string \<Rightarrow> string" where
  "trim s = rev (dropWhile is_js_space (rev (dropWhile is_js_space s)))"

fun join :: "string \<Rightarrow> string list \<Rightarrow> string" where
  \<comment> \<open>\<open>xs.join(sep)\<close>\<close>
  "join sep [] = []"
| "join sep [x] = x"
| "join sep (x # y # ys) = x @ sep @ join sep (y # ys)"

fun split_lines :: "string \<Rightarrow> string list" where
  \<comment> \<open>\<open>s.split('\n')\<close>; the result is never empty, so the first case branch is dead\<close>
  "split_lines [] = [[]]"
| "split_lines (c # cs) =
     (if c = CHR ''\<newline>'' then [] # split_lines cs
      else (case split_lines cs of [] \<Rightarrow> [[c]] | l # ls \<Rightarrow> (c # l) # ls))"

fun digits :: "nat \<Rightarrow> string" where
  \<comment> \<open>the decimal text of a non-negative integer, as string concatenation and
      \<open>String(n)\<close> produce it\<close>
  "digits n = (if n < 10 then [''0123456789'' ! n]
               else digits (n div 10) @ [''0123456789'' ! (n mod 10)])"

definition or_empty :: "string option \<Rightarrow> string" where
  \<comment> \<open>\<open>x || ''\<close> for a string that may be absent\<close>
  "or_empty x = (case x of None \<Rightarrow> [] | Some s \<Rightarrow> s)"

definition is_ascii_lower :: "char \<Rightarrow> bool" where
  "is_ascii_lower c = (97 \<le> (of_char c :: nat) \<and> (of_char c :: nat) \<le> 122)"

definition is_ascii_upper :: "char \<Rightarrow> bool" where
  "is_ascii_upper c = (65 \<le> (of_char c :: nat) \<and> (of_char c :: nat) \<le> 90)"

definition is_ascii_digit :: "char \<Rightarrow> bool" where
  "is_ascii_digit c = (48 \<le> (of_char c :: nat) \<and> (of_char c :: nat) \<le> 57)"

definition word_char :: "char \<Rightarrow> bool" where
  \<comment> \<open>the regular-expression class \<open>\w\<close>\<close>
  "word_char c = (is_ascii_lower c \<or> is_ascii_upper c \<or> is_ascii_digit c \<or> c = CHR ''_'')"

definition char_toLowerCase :: "char \<Rightarrow> char" where
  \<comment> \<open>lower-casing of one code unit below 256: \<open>A\<close>--\<open>Z\<close> and the accented capitals
      0xC0--0xDE (0xD7, the multiplication sign, apart) move up by 32\<close>
  "char_toLowerCase c =
     (let n = of_char c :: nat
      in if (65 \<le> n \<and> n \<le> 90) \<or> (192 \<le> n \<and> n \<le> 222 \<and> n \<noteq> 215)
         then char_of (n + 32) else c)"

definition toLowerCase :: "string \<Rightarrow> string" where
  "toLowerCase s = map char_toLowerCase s"

section \<open>Messages and the transcript\<close>

text \<open>
  The objects \<open>{ role, content, timestamp }\<close> pushed by \<open>extractCurrentMessages\<close> and
  read by the writers (\<open>timestamp\<close> may be absent), and the \<open>data\<close> object built by
  \<open>extractChatFull\<close>: \<open>{ title, messages, report }\<close> with an optional report
  \<open>{ title, content }\<close>.
\<close>

record message =
  role :: string
  content :: string
  timestamp :: "string option"

record research_report =
  report_title :: string
  report_content :: string

record chat_data =
  title :: string
  messages :: "message list"
  report :: "research_report option"

definition role_label :: "message \<Rightarrow> string" where
  \<comment> \<open>\<open>m.role === 'user' ? 'You' : 'Gemini'\<close>\<close>
  "role_label m = (if role m = ''user'' then ''You'' else ''Gemini'')"

section \<open>Scroll-to-top convergence loop (\<open>scrollToTopAndLoadAll\<close>)\<close>

text \<open>
  \<^verbatim>\<open>
  let lastConversationCount = scroller.querySelectorAll('.conversation-container').length;
  let stableRounds = 0;
  const MAX_ATTEMPTS = 100;
  const STABLE_THRESHOLD = 3;
  for (let attempt = 0; attempt < MAX_ATTEMPTS; attempt++) {
    scroller.scrollTop = 0;
    await sleep(600);
    const currentCount = scroller.querySelectorAll('.conversation-container').length;
    if (currentCount === lastConversationCount) {
      stableRounds++;
      if (stableRounds >= STABLE_THRESHOLD) break;
    } else {
      stableRounds = 0;
      lastConversationCount = currentCount;
    }
  }
  \<close>
  The host page is the measurement probe: \<open>probe i\<close> is the number of conversation
  containers counted in iteration \<open>i\<close> of the loop, after the scroll to the top and the
  wait.  The loop returns how it ended, how many probes it made, and its variables.
\<close>

definition MAX_ATTEMPTS :: nat where
  "MAX_ATTEMPTS = 100"

definition STABLE_THRESHOLD :: nat where
  "STABLE_THRESHOLD = 3"

record loop_vars =
  stableRounds :: nat
  lastConversationCount :: nat

datatype loop_exit = Stable | Exhausted

definition loop_body :: "nat \<Rightarrow> loop_vars \<Rightarrow> bool \<times> loop_vars" where
  \<comment> \<open>one iteration on the probed count: whether the loop breaks, and the new variables\<close>
  "loop_body currentCount v =
     (if currentCount = lastConversationCount v
      then (let v' = v\<lparr>stableRounds := stableRounds v + 1\<rparr>
            in (stableRounds v' \<ge> STABLE_THRESHOLD, v'))
      else (False, v\<lparr>stableRounds := 0, lastConversationCount := currentCount\<rparr>))"

function scroll_loop ::
  "(nat \<Rightarrow> nat) \<Rightarrow> nat \<Rightarrow> loop_vars \<Rightarrow> loop_exit \<times> nat \<times> loop_vars" where
  "scroll_loop probe attempt v =
     (if attempt < MAX_ATTEMPTS
      then (case loop_body (probe attempt) v of
              (True, v') \<Rightarrow> (Stable, attempt + 1, v')
            | (False, v') \<Rightarrow> scroll_loop probe (attempt + 1) v')
      else (Exhausted, attempt, v))"
  by pat_completeness auto
termination
  by (relation "measure (\<lambda>(probe, attempt, v). MAX_ATTEMPTS - attempt)") auto

datatype scroll_error = NoChatFound

definition scrollToTopAndLoadAll ::
  "nat option \<Rightarrow> (nat \<Rightarrow> nat) \<Rightarrow> scroll_error + loop_exit \<times> nat \<times> loop_vars" where
  \<comment> \<open>the function up to the end of its loop; \<open>initial\<close> is \<open>None\<close> when the scroller is
      not found (the function throws), and the first container count otherwise\<close>
  "scrollToTopAndLoadAll initial probe =
     (case initial of
        None \<Rightarrow> Inl NoChatFound
      | Some n0 \<Rightarrow> Inr (scroll_loop probe 0 \<lparr>stableRounds = 0, lastConversationCount = n0\<rparr>))"

definition count_after :: "nat \<Rightarrow> (nat \<Rightarrow> nat) \<Rightarrow> nat \<Rightarrow> nat" where
  \<comment> \<open>the count the loop has seen last after \<open>k\<close> probes\<close>
  "count_after n0 probe k = (if k = 0 then n0 else probe (k - 1))"

definition stops_growing_after :: "nat \<Rightarrow> (nat \<Rightarrow> nat) \<Rightarrow> nat \<Rightarrow> bool" where
  \<comment> \<open>every probe after the first \<open>k\<close> measures the count reached by then\<close>
  "stops_growing_after n0 probe k = (\<forall>i\<ge>k. probe i = count_after n0 probe k)"

section \<open>Deduplication (\<open>deduplicateMessages\<close>)\<close>

text \<open>
  \<^verbatim>\<open>
  function deduplicateMessages(messages) {
    const seen = new Set();
    return messages.filter(m => {
      const fp = m.role + '::' + m.content.substring(0, 200).trim();
      if (seen.has(fp)) return false;
      seen.add(fp);
      return true;
    });
  }
  \<close>
  The set \<open>seen\<close> is threaded through the filter as an explicit argument.
\<close>

definition fingerprint :: "message \<Rightarrow> string" where
  "fingerprint m = role m @ ''::'' @ trim (take 200 (content m))"

fun dedup_filter :: "string set \<Rightarrow> message list \<Rightarrow> message list" where
  "dedup_filter seen [] = []"
| "dedup_filter seen (m # ms) =
     (let fp = fingerprint m
      in if fp \<in> seen then dedup_filter seen ms
         else m # dedup_filter (insert fp seen) ms)"

definition deduplicateMessages :: "message list \<Rightarrow> message list" where
  "deduplicateMessages ms = dedup_filter {} ms"

text \<open>
  The deduplication as the specification words it, for comparison: the fingerprint is the
  role followed by the first 200 characters of the trimmed content, and a turn is kept
  when no earlier turn has its fingerprint.
\<close>

definition spec_fingerprint :: "message \<Rightarrow> string" where
  "spec_fingerprint m = role m @ take 200 (trim (content m))"

fun spec_keep_first :: "string list \<Rightarrow> message list \<Rightarrow> message list" where
  "spec_keep_first earlier [] = []"
| "spec_keep_first earlier (m # ms) =
     (if spec_fingerprint m \<in> set earlier then spec_keep_first earlier ms
      else m # spec_keep_first (spec_fingerprint m # earlier) ms)"

definition spec_deduplicate :: "message list \<Rightarrow> message list" where
  "spec_deduplicate ms = spec_keep_first [] ms"

section \<open>File names (\<open>sanitizeFilename\<close>)\<close>

text \<open>
  \<^verbatim>\<open>
  function sanitizeFilename(title) {
    return (title || 'gemini-chat').replace(/[^a-z0-9_\-]/gi, '_').substring(0, 80);
  }
  \<close>
  A \<open>null\<close> title is \<open>None\<close>.  Under the flag \<open>i\<close> the class \<open>[a-z0-9_\-]\<close> also
  holds the capital letters.
\<close>

definition filename_char :: "char \<Rightarrow> bool" where
  "filename_char c =
     (is_ascii_lower c \<or> is_ascii_upper c \<or> is_ascii_digit c \<or> c = CHR ''_'' \<or> c = CHR ''-'')"

definition sanitizeFilename :: "string option \<Rightarrow> string" where
  "sanitizeFilename name =
     take 80 (map (\<lambda>c. if filename_char c then c else CHR ''_'')
                (case name of None \<Rightarrow> ''gemini-chat''
                 | Some t \<Rightarrow> if t = [] then ''gemini-chat'' else t))"

section \<open>The delimited-text writers\<close>

text \<open>
  A field is a number (the turn number), a string, or absent.  \<open>esc\<close> is the escaping
  function inside \<open>exportCSV\<close> of the content script:
  \<^verbatim>\<open>
  const esc = v => { const s = String(v ?? '');
    return (s.includes('"') || s.includes(',') || s.includes('\n'))
      ? '"' + s.replace(/"/g, '""') + '"' : s; };
  \<close>
  and \<open>escapeCSV\<close> is the one of the export module:
  \<^verbatim>\<open>
  function escapeCSV(value) {
    var str = String(value == null ? '' : value);
    if (str.indexOf('"') !== -1 || str.indexOf(',') !== -1 || str.indexOf('\n') !== -1
        || str.indexOf('\r') !== -1) {
      return '"' + str.replace(/"/g, '""') + '"';
    }
    return str;
  }
  \<close>
\<close>

datatype js_value = JNull | JNum nat | JStr string

fun js_String :: "js_value \<Rightarrow> string" where
  "js_String JNull = []"
| "js_String (JNum n) = digits n"
| "js_String (JStr s) = s"

definition double_quotes :: "string \<Rightarrow> string" where
  \<comment> \<open>\<open>s.replace(/"/g, '""')\<close>\<close>
  "double_quotes s = concat (map (\<lambda>c. if c = CHR ''\"'' then ''\"\"'' else [c]) s)"

definition esc :: "js_value \<Rightarrow> string" where
  "esc v =
     (let s = js_String v
      in if CHR ''\"'' \<in> set s \<or> CHR '','' \<in> set s \<or> CHR ''\<newline>'' \<in> set s
         then ''\"'' @ double_quotes s @ ''\"''
         else s)"

definition escapeCSV :: "js_value \<Rightarrow> string" where
  "escapeCSV v =
     (let str = js_String v
      in if CHR ''\"'' \<in> set str \<or> CHR '','' \<in> set str \<or> CHR ''\<newline>'' \<in> set str
            \<or> CHR 0x0D \<in> set str
         then ''\"'' @ double_quotes str @ ''\"''
         else str)"

text \<open>
  The rows of \<open>exportCSV\<close> (content script) and the text of \<open>exportToCSV\<close> (export
  module).  The byte-order mark U+FEFF is a parameter.
\<close>

definition exportCSV_rows :: "string \<Rightarrow> chat_data \<Rightarrow> string list" where
  "exportCSV_rows bom data =
     [bom @ join '','' (map esc [JStr ''Turn'', JStr ''Role'', JStr ''Content'', JStr ''Timestamp''])]
     @ map (\<lambda>(i, m). join '','' [esc (JNum (i + 1)), esc (JStr (role_label m)),
                                  esc (JStr (content m)), esc (JStr (or_empty (timestamp m)))])
           (enumerate 0 (messages data))
     @ (case report data of
          None \<Rightarrow> []
        | Some r \<Rightarrow> [join '','' [esc (JNum (length (messages data) + 1)),
                                esc (JStr ''Deep Research Report''),
                                esc (JStr (report_content r)), esc (JStr [])]])"

definition exportCSV :: "string \<Rightarrow> chat_data \<Rightarrow> string" where
  "exportCSV bom data = join ''\<newline>'' (exportCSV_rows bom data)"

definition exportToCSV :: "string \<Rightarrow> chat_data \<Rightarrow> string" where
  "exportToCSV bom chatData =
     bom @ join ''\<newline>''
       (join '','' (map escapeCSV [JStr ''Turn Number'', JStr ''Role'', JStr ''Content'',
                                  JStr ''Timestamp''])
        # map (\<lambda>(i, msg). join '','' [escapeCSV (JNum (i + 1)), escapeCSV (JStr (role_label msg)),
                                       escapeCSV (JStr (content msg)),
                                       escapeCSV (JStr (or_empty (timestamp msg)))])
              (enumerate 0 (messages chatData)))"

text \<open>
  The reader of one field under the RFC 4180 rules, as the claim C10 words it: strip the
  surrounding double quotes if present, and collapse each doubled double quote to one.
\<close>

fun collapse_quotes :: "string \<Rightarrow> string" where
  "collapse_quotes (a # b # cs) =
     (if a = CHR ''\"'' \<and> b = CHR ''\"'' then a # collapse_quotes cs
      else a # collapse_quotes (b # cs))"
| "collapse_quotes cs = cs"

definition strip_quotes :: "string \<Rightarrow> string" where
  "strip_quotes s =
     (if 2 \<le> length s \<and> hd s = CHR ''\"'' \<and> last s = CHR ''\"'' then butlast (tl s) else s)"

definition csv_decode :: "string \<Rightarrow> string" where
  "csv_decode s = collapse_quotes (strip_quotes s)"

section \<open>The linear-markup writers\<close>

text \<open>
  \<open>exportMarkdown\<close> of the content script pushes onto \<open>lines\<close> and joins with line
  feeds; \<open>exportToMarkdown\<close> of the export module does the same with a title fallback and
  the timestamp in the role header, and without the report.  The text of
  \<open>new Date().toLocaleString()\<close> is a parameter.
\<close>

definition markdown_turn :: "message \<Rightarrow> string list" where
  \<comment> \<open>what the \<open>forEach\<close> callback pushes for one message\<close>
  "markdown_turn m =
     [''## '' @ role_label m, []]
     @ (if role m = ''user'' then map (\<lambda>l. ''> '' @ l) (split_lines (content m))
        else [content m])
     @ [[]]"

definition exportMarkdown_lines :: "string \<Rightarrow> chat_data \<Rightarrow> string list" where
  "exportMarkdown_lines now data =
     foldl (\<lambda>lines m. lines @ markdown_turn m)
       [''# '' @ title data, [],
        ''*Exported on '' @ now @ '' | '' @ digits (length (messages data)) @ '' messages*'',
        [], ''---'', []]
       (messages data)
     @ (case report data of
          None \<Rightarrow> []
        | Some r \<Rightarrow> [''---'', [], ''# Deep Research Report: '' @ report_title r, [],
                      report_content r, []])"

definition exportMarkdown :: "string \<Rightarrow> chat_data \<Rightarrow> string" where
  "exportMarkdown now data = join ''\<newline>'' (exportMarkdown_lines now data)"

definition markdown_turn_lib :: "message \<Rightarrow> string list" where
  "markdown_turn_lib msg =
     [''## '' @ role_label msg
        @ (case timestamp msg of None \<Rightarrow> []
           | Some t \<Rightarrow> if t = [] then [] else '' ('' @ t @ '')''), []]
     @ (if role msg = ''user'' then map (\<lambda>l. ''> '' @ l) (split_lines (content msg))
        else [content msg])
     @ [[]]"

definition exportToMarkdown :: "string \<Rightarrow> chat_data \<Rightarrow> string" where
  "exportToMarkdown exportDate chatData =
     join ''\<newline>''
       (foldl (\<lambda>lines msg. lines @ markdown_turn_lib msg)
          [''# '' @ (if title chatData = [] then ''Untitled Chat'' else title chatData), [],
           ''*Exported on '' @ exportDate @ '' | '' @ digits (length (messages chatData))
             @ '' messages*'',
           [], ''---'', []]
          (messages chatData))"

section \<open>Export dispatch (\<open>exportChat\<close>, \<open>handleExport\<close>)\<close>







section \<open>The document tree\<close>

text \<open>
  A node is a text node, an element, or any other node (a comment).  An element has its
  tag name in lower case (the code reads \<open>tagName.toLowerCase()\<close> only), its attributes
  and its child nodes.  The document is the node whose descendants are all the elements
  of the page.
\<close>

datatype node =
    TextNode string
  | OtherNode
  | Element string "(string \<times> string) list" "node list"

fun attributes :: "node \<Rightarrow> (string \<times> string) list" where
  "attributes (Element tag attrs cs) = attrs"
| "attributes n = []"

definition is_element :: "node \<Rightarrow> bool" where
  "is_element n = (case n of Element tag attrs cs \<Rightarrow> True | _ \<Rightarrow> False)"

definition has_tag :: "string \<Rightarrow> node \<Rightarrow> bool" where
  \<comment> \<open>the type selector \<open>t\<close>\<close>
  "has_tag t n = (case n of Element tag attrs cs \<Rightarrow> tag = t | _ \<Rightarrow> False)"

definition getAttribute :: "string \<Rightarrow> node \<Rightarrow> string option" where
  "getAttribute name n = map_of (attributes n) name"

definition className :: "node \<Rightarrow> string" where
  "className n = or_empty (getAttribute ''class'' n)"

definition node_id :: "node \<Rightarrow> string" where
  "node_id n = or_empty (getAttribute ''id'' n)"

definition is_ascii_space :: "char \<Rightarrow> bool" where
  \<comment> \<open>the separators of class names: TAB, LF, FF, CR, SPACE\<close>
  "is_ascii_space c = (c \<in> set [CHR 0x09, CHR 0x0A, CHR 0x0C, CHR 0x0D, CHR 0x20])"

fun tokens :: "string \<Rightarrow> string \<Rightarrow> string list" where
  "tokens cur [] = (if cur = [] then [] else [cur])"
| "tokens cur (c # cs) =
     (if is_ascii_space c then (if cur = [] then [] else [cur]) @ tokens [] cs
      else tokens (cur @ [c]) cs)"

definition classList :: "node \<Rightarrow> string list" where
  "classList n = tokens [] (className n)"

definition has_class :: "string \<Rightarrow> node \<Rightarrow> bool" where
  \<comment> \<open>the class selector \<open>.c\<close>\<close>
  "has_class c n = (is_element n \<and> c \<in> set (classList n))"

fun textContent :: "node \<Rightarrow> string" where
  "textContent (TextNode s) = s"
| "textContent OtherNode = []"
| "textContent (Element tag attrs cs) = concat (map textContent cs)"

fun descendants :: "node \<Rightarrow> node list" where
  \<comment> \<open>in document order\<close>
  "descendants (Element tag attrs cs) = concat (map (\<lambda>c. c # descendants c) cs)"
| "descendants n = []"

definition find_first :: "(node \<Rightarrow> bool) \<Rightarrow> node \<Rightarrow> node option" where
  \<comment> \<open>\<open>n.querySelector(sel)\<close>, where only the node found is used\<close>
  "find_first sel n = List.find sel (descendants n)"

text \<open>
  The walker looks upwards (\<open>isInsidePre\<close> follows \<open>parentElement\<close>) and sideways
  (\<open>previousElementSibling\<close>).  A located node carries what those reads return: whether
  an ancestor is a \<open>pre\<close> element, and the previous element sibling.
\<close>

record loc =
  inside_pre :: bool
  prev_element :: "node option"
  here :: node

fun located_children :: "bool \<Rightarrow> node option \<Rightarrow> node list \<Rightarrow> loc list"
and located_below :: "bool \<Rightarrow> node \<Rightarrow> loc list" where
  "located_children ip prev [] = []"
| "located_children ip prev (c # cs) =
     \<lparr>inside_pre = ip, prev_element = prev, here = c\<rparr> # located_below ip c
     @ located_children ip (if is_element c then Some c else prev) cs"
| "located_below ip (Element tag attrs cs) = located_children (ip \<or> tag = ''pre'') None cs"
| "located_below ip n = []"

definition querySelectorAll :: "(node \<Rightarrow> bool) \<Rightarrow> loc \<Rightarrow> loc list" where
  "querySelectorAll sel l = filter (\<lambda>d. sel (here d)) (located_below (inside_pre l) (here l))"

definition querySelector :: "(node \<Rightarrow> bool) \<Rightarrow> loc \<Rightarrow> loc option" where
  "querySelector sel l = List.find (\<lambda>d. sel (here d)) (located_below (inside_pre l) (here l))"

definition at_root :: "node \<Rightarrow> loc" where
  "at_root n = \<lparr>inside_pre = False, prev_element = None, here = n\<rparr>"

definition or_else :: "'a option \<Rightarrow> 'a option \<Rightarrow> 'a option" where
  \<comment> \<open>\<open>a || b\<close> on elements that may be null\<close>
  "or_else a b = (case a of None \<Rightarrow> b | Some x \<Rightarrow> Some x)"

section \<open>Code-block language (\<open>detectCodeLanguage\<close>)\<close>

text \<open>
  The content script \<open>src/content.js\<close>:
  \<^verbatim>\<open>
  function detectCodeLanguage(pre) {
    const cls = (pre.className || '') + ' ' + ((pre.querySelector('code') || {}).className || '');
    const m = cls.match(/(?:language|lang)-(\w+)/);
    if (m) return m[1];
    return pre.getAttribute('data-language') || pre.getAttribute('data-lang') || '';
  }
  \<close>
  The content script \<open>src/unnamed/part_000\<close> goes on after the data attributes:
  \<^verbatim>\<open>
    const prev = preOrCodeBlock.previousElementSibling;
    if (prev && prev.textContent && prev.textContent.length < 30) {
      const text = prev.textContent.trim().toLowerCase();
      const knownLangs = [ 'python', ... ];
      if (knownLangs.includes(text)) return text;
    }
    return '';
  \<close>
  \<open>match_lang\<close> is the search for the regular expression: the leftmost position where
  \<open>language-\<close> or \<open>lang-\<close> is followed by a word character, and the longest run of word
  characters from there.
\<close>

definition match_lang_here :: "string \<Rightarrow> string option" where
  "match_lang_here s =
     (if take 9 s = ''language-'' \<and> takeWhile word_char (drop 9 s) \<noteq> []
        then Some (takeWhile word_char (drop 9 s))
      else if take 5 s = ''lang-'' \<and> takeWhile word_char (drop 5 s) \<noteq> []
        then Some (takeWhile word_char (drop 5 s))
      else None)"

fun match_lang :: "string \<Rightarrow> string option" where
  "match_lang [] = None"
| "match_lang (c # cs) =
     (case match_lang_here (c # cs) of Some m \<Rightarrow> Some m | None \<Rightarrow> match_lang cs)"

definition class_hint :: "node \<Rightarrow> string option" where
  "class_hint pre =
     match_lang (className pre @ '' ''
                 @ (case find_first (has_tag ''code'') pre of
                      None \<Rightarrow> [] | Some c \<Rightarrow> className c))"

definition data_hint :: "node \<Rightarrow> string" where
  "data_hint pre =
     (if or_empty (getAttribute ''data-language'' pre) \<noteq> []
      then or_empty (getAttribute ''data-language'' pre)
      else or_empty (getAttribute ''data-lang'' pre))"

definition detectCodeLanguage :: "node \<Rightarrow> string" where
  "detectCodeLanguage pre =
     (case class_hint pre of Some m \<Rightarrow> m | None \<Rightarrow> data_hint pre)"

definition knownLangs :: "string list" where
  "knownLangs =
     [''python'', ''javascript'', ''typescript'', ''java'', ''c++'', ''c#'', ''go'',
      ''rust'', ''ruby'', ''php'', ''swift'', ''kotlin'', ''sql'', ''html'', ''css'',
      ''bash'', ''shell'', ''json'', ''yaml'', ''xml'', ''markdown'', ''r'', ''scala'']"

definition sibling_hint :: "node option \<Rightarrow> string" where
  "sibling_hint prev =
     (case prev of
        None \<Rightarrow> []
      | Some p \<Rightarrow>
          if textContent p \<noteq> [] \<and> length (textContent p) < 30
          then (let text = toLowerCase (trim (textContent p))
                in if text \<in> set knownLangs then text else [])
          else [])"

definition detectCodeLanguage_part000 :: "node option \<Rightarrow> node \<Rightarrow> string" where
  "detectCodeLanguage_part000 prev preOrCodeBlock =
     (case class_hint preOrCodeBlock of
        Some m \<Rightarrow> m
      | None \<Rightarrow>
          if data_hint preOrCodeBlock \<noteq> [] then data_hint preOrCodeBlock
          else sibling_hint prev)"

section \<open>The tree walker (\<open>processNode\<close>, \<open>extractFormattedText\<close>)\<close>

text \<open>
  The two content scripts share \<open>processNode\<close> but for two points: \<open>src/content.js\<close>
  skips the injected elements \<open>gce-root\<close> and \<open>gce-toast\<close>, and each calls its own
  \<open>detectCodeLanguage\<close>.  The first argument says which script runs.  The walker returns
  the strings it pushes onto \<open>parts\<close>.  It never descends below a \<open>pre\<close> element, so
  the children of a node are inside a \<open>pre\<close> exactly when the node is.
\<close>

datatype script = Content_js | Part_000

definition detect :: "script \<Rightarrow> node option \<Rightarrow> node \<Rightarrow> string" where
  "detect v prev n =
     (case v of Content_js \<Rightarrow> detectCodeLanguage n
      | Part_000 \<Rightarrow> detectCodeLanguage_part000 prev n)"

definition fence :: "string \<Rightarrow> string \<Rightarrow> string" where
  "fence lang code = ''\<newline>```'' @ lang @ ''\<newline>'' @ trim code @ ''\<newline>```\<newline>''"

definition formatTable :: "node \<Rightarrow> string list" where
  "formatTable table =
     concat (map (\<lambda>(ri, row).
        (let cells = map (\<lambda>c. trim (textContent c))
                       (filter (\<lambda>n. has_tag ''th'' n \<or> has_tag ''td'' n) (descendants row))
         in [''| '' @ join '' | '' cells @ '' |\<newline>'']
            @ (if ri = 0 \<and> find_first (has_tag ''th'') row \<noteq> None
               then [''| '' @ join '' | '' (map (\<lambda>c. ''---'') cells) @ '' |\<newline>'']
               else [])))
       (enumerate 0 (filter (has_tag ''tr'') (descendants table))))"

definition heading_level :: "string \<Rightarrow> nat option" where
  \<comment> \<open>\<open>/^h[1-6]$/.test(tag)\<close> and \<open>parseInt(tag[1], 10)\<close>\<close>
  "heading_level tag =
     map_of [(''h1'', 1), (''h2'', 2), (''h3'', 3), (''h4'', 4), (''h5'', 5), (''h6'', 6)] tag"

definition blockTags :: "string list" where
  "blockTags = [''p'', ''div'', ''h1'', ''h2'', ''h3'', ''h4'', ''h5'', ''h6'',
                ''blockquote'', ''section'', ''article'', ''header'', ''footer'', ''br'', ''hr'']"

fun processNode :: "script \<Rightarrow> bool \<Rightarrow> node option \<Rightarrow> node \<Rightarrow> string list"
and processChildren :: "script \<Rightarrow> bool \<Rightarrow> node option \<Rightarrow> node list \<Rightarrow> string list"
and processItems ::
  "script \<Rightarrow> bool \<Rightarrow> bool \<Rightarrow> nat \<Rightarrow> node option \<Rightarrow> node list \<Rightarrow> string list"
where
  "processNode v ip prev (TextNode s) = [s]"
| "processNode v ip prev OtherNode = []"
| "processNode v ip prev (Element tag attrs cs) =
     (if tag = ''span'' \<and> ''screen-reader-only'' \<in> set (classList (Element tag attrs cs)) then []
      else if v = Content_js \<and> (node_id (Element tag attrs cs) = ''gce-root''
                                \<or> node_id (Element tag attrs cs) = ''gce-toast'') then []
      else if tag = ''pre'' \<or> tag = ''code-block'' then
        [fence (detect v prev (Element tag attrs cs))
           (textContent (case find_first (has_tag ''code'') (Element tag attrs cs) of
                           None \<Rightarrow> Element tag attrs cs | Some codeEl \<Rightarrow> codeEl))]
      else if tag = ''code'' \<and> \<not> ip then [''`'' @ textContent (Element tag attrs cs) @ ''`'']
      else if tag = ''img'' then [''[Image attachment]'']
      else if tag = ''ul'' \<or> tag = ''ol'' then
        [''\<newline>''] @ processItems v ip (tag = ''ol'') 0 None cs
      else if tag = ''li'' then processChildren v ip None cs
      else if tag = ''table'' then
        [''\<newline>''] @ formatTable (Element tag attrs cs) @ [''\<newline>'']
      else if tag = ''strong'' \<or> tag = ''b'' then
        [''**''] @ processChildren v ip None cs @ [''**'']
      else if tag = ''em'' \<or> tag = ''i'' then
        [''*''] @ processChildren v ip None cs @ [''*'']
      else if tag = ''br'' then [''\<newline>'']
      else if tag = ''hr'' then [''\<newline>---\<newline>'']
      else (case heading_level tag of
              Some level \<Rightarrow>
                [''\<newline>'' @ replicate level (CHR ''#'') @ '' '']
                @ processChildren v ip None cs @ [''\<newline>'']
            | None \<Rightarrow>
                if tag = ''blockquote'' then
                  [''\<newline>> ''] @ processChildren v ip None cs @ [''\<newline>'']
                else (if tag \<in> set blockTags then [''\<newline>''] else [])
                     @ processChildren v ip None cs
                     @ (if tag \<in> set blockTags then [''\<newline>''] else [])))"
| "processChildren v ip prev [] = []"
| "processChildren v ip prev (c # cs) =
     processNode v ip prev c @ processChildren v ip (if is_element c then Some c else prev) cs"
| "processItems v ip ordered i prev [] = []"
| "processItems v ip ordered i prev (c # cs) =
     (if has_tag ''li'' c
      then [if ordered then digits (i + 1) @ ''. '' else ''- '']
           @ processNode v ip prev c @ [''\<newline>'']
           @ processItems v ip ordered (i + 1) (Some c) cs
      else processItems v ip ordered i (if is_element c then Some c else prev) cs)"

definition extractFormattedText :: "script \<Rightarrow> loc option \<Rightarrow> string" where
  "extractFormattedText v element =
     (case element of
        None \<Rightarrow> []
      | Some e \<Rightarrow> trim (concat (processNode v (inside_pre e) (prev_element e) (here e))))"

section \<open>Transcript assembly (\<open>extractCurrentMessages\<close>)\<close>

text \<open>
  \<open>extractCurrentMessages\<close> of \<open>src/content.js\<close>.  Nothing in the walker throws, so the
  \<open>try\<close> around each container has no \<open>catch\<close> branch here.
\<close>

definition user_query_element :: "loc \<Rightarrow> loc option" where
  "user_query_element container =
     (case querySelector (has_tag ''user-query'') container of
        None \<Rightarrow> None
      | Some uq \<Rightarrow>
          or_else (querySelector (has_class ''query-text'') uq)
            (or_else (querySelector (has_class ''query-content'') uq)
               (or_else (querySelector (has_tag ''user-query-content'') uq) (Some uq))))"

definition model_response_element :: "loc \<Rightarrow> loc option" where
  "model_response_element container =
     (case querySelector (has_tag ''model-response'') container of
        None \<Rightarrow> None
      | Some mr \<Rightarrow>
          or_else (querySelector (has_tag ''message-content'') mr)
            (or_else (querySelector (has_class ''model-response-text'') mr) (Some mr)))"

definition push_turn :: "string \<Rightarrow> loc option \<Rightarrow> message list" where
  \<comment> \<open>\<open>if (el) { const text = extractFormattedText(el);
      if (text) messages.push({ role, content: text }); }\<close>\<close>
  "push_turn r element =
     (case element of
        None \<Rightarrow> []
      | Some el \<Rightarrow>
          (let text = extractFormattedText Content_js (Some el)
           in if text \<noteq> [] then [\<lparr>role = r, content = text, timestamp = None\<rparr>] else []))"

definition extractContainer :: "loc \<Rightarrow> message list" where
  "extractContainer container =
     push_turn ''user'' (user_query_element container)
     @ push_turn ''assistant'' (model_response_element container)"

definition extractCurrentMessages :: "node \<Rightarrow> message list" where
  "extractCurrentMessages document =
     (case querySelector (\<lambda>n. has_tag ''infinite-scroller'' n \<and> has_class ''chat-history'' n)
             (at_root document) of
        None \<Rightarrow> []
      | Some scroller \<Rightarrow>
          foldl (\<lambda>acc container. acc @ extractContainer container) []
            (querySelectorAll (has_class ''conversation-container'') scroller))"

section \<open>The export flows (\<open>extractChatFull\<close>, the popup, the in-page menu)\<close>









section \<open>Example inputs\<close>

definition early_probe :: "nat \<Rightarrow> nat" where
  \<comment> \<open>a page that loads ten more turns on each of the first two probes\<close>
  "early_probe i = (if i < 2 then 10 * (i + 1) else 20)"

definition late_probe :: "nat \<Rightarrow> nat" where
  \<comment> \<open>a page that loads one more turn on each of the first 98 probes\<close>
  "late_probe i = (if i < 98 then i + 1 else 98)"

definition turn_long :: message where
  "turn_long =
     \<lparr>role = ''user'', content = replicate 199 (CHR ''a'') @ '' b'', timestamp = None\<rparr>"

definition turn_short :: message where
  "turn_short = \<lparr>role = ''user'', content = replicate 199 (CHR ''a''), timestamp = None\<rparr>"

definition cr_turn :: message where
  "cr_turn = \<lparr>role = ''user'', content = ''a'' @ [CHR 0x0D] @ ''b'', timestamp = None\<rparr>"

definition demo :: chat_data where
  "demo = \<lparr>title = ''Demo'',
            messages = [\<lparr>role = ''user'', content = ''Hello'', timestamp = None\<rparr>,
                        \<lparr>role = ''assistant'',
                         content = ''Hi there\<newline>```python\<newline>print(1)\<newline>```'',
                         timestamp = None\<rparr>],
            report = None\<rparr>"



definition python_block :: node where
  \<comment> \<open>\<open><div><p>Python</p><pre><code>print(1)</code></pre></div>\<close>\<close>
  "python_block = Element ''div'' []
     [Element ''p'' [] [TextNode ''Python''],
      Element ''pre'' [] [Element ''code'' [] [TextNode ''print(1)'']]]"

definition blank_turn :: node where
  \<comment> \<open>a turn whose user query holds white space only\<close>
  "blank_turn = Element ''div'' [(''class'', ''conversation-container'')]
     [Element ''user-query'' []
        [Element ''div'' [(''class'', ''query-text'')] [TextNode ''  \<newline> '']],
      Element ''model-response'' []
        [Element ''message-content'' [] [Element ''p'' [] [TextNode ''Hi'']]]]"

definition blank_page :: node where
  "blank_page = Element ''body'' []
     [Element ''infinite-scroller'' [(''class'', ''chat-history'')] [blank_turn]]"



section \<open>Properties of the convergence loop\<close>

declare scroll_loop.simps [simp del]

lemma scroll_loop_stable_run:
  "\<forall>j\<ge>i. probe j = lastConversationCount v \<Longrightarrow> stableRounds v < STABLE_THRESHOLD
    \<Longrightarrow> i + (STABLE_THRESHOLD - stableRounds v) \<le> MAX_ATTEMPTS
    \<Longrightarrow> scroll_loop probe i v
        = (Stable, i + (STABLE_THRESHOLD - stableRounds v),
           v\<lparr>stableRounds := STABLE_THRESHOLD\<rparr>)"
proof (induction "STABLE_THRESHOLD - stableRounds v" arbitrary: i v)
  case 0
  then show ?case by simp
next
  case (Suc n)
  have i: "i < MAX_ATTEMPTS" using Suc.prems Suc.hyps(2) by linarith
  have p: "probe i = lastConversationCount v" using Suc.prems(1) by simp
  show ?case
  proof (cases "stableRounds v + 1 \<ge> STABLE_THRESHOLD")
    case True
    with Suc.prems(2) have "stableRounds v + 1 = STABLE_THRESHOLD" by simp
    then show ?thesis using i p
      by (subst scroll_loop.simps) (auto simp: loop_body_def Let_def)
  next
    case False
    let ?v = "v\<lparr>stableRounds := stableRounds v + 1\<rparr>"
    have "scroll_loop probe (i + 1) ?v
          = (Stable, (i + 1) + (STABLE_THRESHOLD - stableRounds ?v),
             ?v\<lparr>stableRounds := STABLE_THRESHOLD\<rparr>)"
      using Suc.hyps(2) Suc.prems False by (intro Suc.hyps(1)) auto
    moreover have "scroll_loop probe i v = scroll_loop probe (i + 1) ?v"
      using i p False by (subst scroll_loop.simps) (simp add: loop_body_def Let_def)
    ultimately show ?thesis using False by simp
  qed
qed

lemma scroll_loop_reaches_stable:
  "stops_growing_after n0 probe k \<Longrightarrow> k + STABLE_THRESHOLD \<le> MAX_ATTEMPTS \<Longrightarrow> i \<le> k
    \<Longrightarrow> stableRounds v < STABLE_THRESHOLD \<Longrightarrow> lastConversationCount v = count_after n0 probe i
    \<Longrightarrow> \<exists>p v'. p \<le> k + STABLE_THRESHOLD \<and> scroll_loop probe i v = (Stable, p, v')"
proof (induction "k - i" arbitrary: i v)
  case 0
  then have ik: "i = k" by simp
  have "\<forall>j\<ge>i. probe j = lastConversationCount v"
    using "0.prems"(1,5) ik by (simp add: stops_growing_after_def)
  then have "scroll_loop probe i v
        = (Stable, i + (STABLE_THRESHOLD - stableRounds v),
           v\<lparr>stableRounds := STABLE_THRESHOLD\<rparr>)"
    using "0.prems" ik by (intro scroll_loop_stable_run) auto
  then show ?case using ik by auto
next
  case (Suc n)
  then have i: "i < MAX_ATTEMPTS" "i < k" by auto
  obtain b v' where lb: "loop_body (probe i) v = (b, v')"
    by (cases "loop_body (probe i) v")
  show ?case
  proof (cases b)
    case True
    then have "scroll_loop probe i v = (Stable, i + 1, v')"
      using i lb by (subst scroll_loop.simps) simp
    then show ?thesis using i by auto
  next
    case False
    have st: "stableRounds v' < STABLE_THRESHOLD"
      and lc: "lastConversationCount v' = count_after n0 probe (i + 1)"
      using lb False Suc.prems(4,5)
      by (auto simp: loop_body_def Let_def count_after_def split: if_splits)
    have "\<exists>p v''. p \<le> k + STABLE_THRESHOLD
            \<and> scroll_loop probe (i + 1) v' = (Stable, p, v'')"
      using Suc.hyps(2) Suc.prems(1,2) i st lc by (intro Suc.hyps(1)) auto
    moreover have "scroll_loop probe i v = scroll_loop probe (i + 1) v'"
      using i lb False by (subst scroll_loop.simps) simp
    ultimately show ?thesis by simp
  qed
qed

lemma scroll_loop_bound:
  "i \<le> MAX_ATTEMPTS \<Longrightarrow> fst (snd (scroll_loop probe i v)) \<le> MAX_ATTEMPTS"
proof (induction probe i v rule: scroll_loop.induct)
  case (1 probe i v)
  show ?case
  proof (cases "i < MAX_ATTEMPTS")
    case True
    obtain b v' where lb: "loop_body (probe i) v = (b, v')"
      by (cases "loop_body (probe i) v")
    show ?thesis
    proof (cases b)
      case True
      then show ?thesis
        using \<open>i < MAX_ATTEMPTS\<close> lb by (subst scroll_loop.simps) simp
    next
      case False
      then have "fst (snd (scroll_loop probe (i + 1) v')) \<le> MAX_ATTEMPTS"
        using "1.IH" [OF \<open>i < MAX_ATTEMPTS\<close> lb [symmetric]] \<open>i < MAX_ATTEMPTS\<close> by simp
      then show ?thesis
        using \<open>i < MAX_ATTEMPTS\<close> lb False by (subst scroll_loop.simps) simp
    qed
  next
    case False
    then show ?thesis using "1.prems" by (subst scroll_loop.simps) simp
  qed
qed

lemma early_probe_stops: "stops_growing_after 5 early_probe 2"
  by (simp add: stops_growing_after_def count_after_def early_probe_def)

lemma late_probe_stops: "stops_growing_after 0 late_probe 98"
  by (simp add: stops_growing_after_def count_after_def late_probe_def)

text \<open>
  C1, as the code has it.  When the count stops growing after \<open>k\<close> probes and
  \<open>k + 3\<close> probes fit into the 100 attempts, the loop leaves through its stable exit
  after at most \<open>k + 3\<close> probes.  One iteration adds one to the stability counter when the
  probed count equals the last count and breaks when the counter has reached 3, and
  otherwise sets the counter to 0 and remembers the new count.  No run makes more than
  100 probes.
\<close>

theorem scrollToTopAndLoadAll_converges:
  assumes "stops_growing_after n0 probe k" and "k + 3 \<le> 100"
  shows "(\<exists>p v. p \<le> k + 3 \<and> scrollToTopAndLoadAll (Some n0) probe = Inr (Stable, p, v))
       \<and> loop_body n w =
           (if n = lastConversationCount w
            then (3 \<le> stableRounds w + 1, w\<lparr>stableRounds := stableRounds w + 1\<rparr>)
            else (False, w\<lparr>stableRounds := 0, lastConversationCount := n\<rparr>))
       \<and> (\<forall>e p v. scrollToTopAndLoadAll start probe' = Inr (e, p, v) \<longrightarrow> p \<le> 100)"
proof -
  have "\<exists>p v. p \<le> k + STABLE_THRESHOLD
          \<and> scroll_loop probe 0 \<lparr>stableRounds = 0, lastConversationCount = n0\<rparr> = (Stable, p, v)"
    using assms
    by (intro scroll_loop_reaches_stable [where ?n0.0 = n0])
       (simp_all add: STABLE_THRESHOLD_def MAX_ATTEMPTS_def count_after_def)
  then have a: "\<exists>p v. p \<le> k + 3 \<and> scrollToTopAndLoadAll (Some n0) probe = Inr (Stable, p, v)"
    by (simp add: scrollToTopAndLoadAll_def STABLE_THRESHOLD_def)
  have b: "loop_body n w =
           (if n = lastConversationCount w
            then (3 \<le> stableRounds w + 1, w\<lparr>stableRounds := stableRounds w + 1\<rparr>)
            else (False, w\<lparr>stableRounds := 0, lastConversationCount := n\<rparr>))"
    by (simp add: loop_body_def Let_def STABLE_THRESHOLD_def)
  have c: "\<forall>e p v. scrollToTopAndLoadAll start probe' = Inr (e, p, v) \<longrightarrow> p \<le> 100"
  proof (intro allI impI)
    fix e p v
    assume run: "scrollToTopAndLoadAll start probe' = Inr (e, p, v)"
    then obtain m where "scroll_loop probe' 0 \<lparr>stableRounds = 0, lastConversationCount = m\<rparr> = (e, p, v)"
      by (auto simp: scrollToTopAndLoadAll_def split: option.splits)
    with scroll_loop_bound [of 0 probe' "\<lparr>stableRounds = 0, lastConversationCount = m\<rparr>"]
    show "p \<le> 100" by (simp add: MAX_ATTEMPTS_def)
  qed
  show ?thesis by (intro conjI a b c)
qed

text \<open>
  Witness for C1: a page of 5 turns that loads ten more on each of the first two probes
  is stable after probe 5.
\<close>

theorem scrollToTopAndLoadAll_converges_witness:
  "\<exists>p v. p \<le> 5 \<and> scrollToTopAndLoadAll (Some 5) early_probe = Inr (Stable, p, v)"
proof -
  have "(2::nat) + 3 \<le> 100" by simp
  from scrollToTopAndLoadAll_converges [OF early_probe_stops this]
  show ?thesis by simp
qed

text \<open>
  Counterexample to C1 as stated: a page that grows on each of the first 98 probes stops
  growing after 98 probes, and the loop ends with its 100 attempts used up and the
  stability counter at 2; it does not reach the stable exit.
\<close>

theorem scrollToTopAndLoadAll_exhausted:
  "stops_growing_after 0 late_probe 98
   \<and> scrollToTopAndLoadAll (Some 0) late_probe
       = Inr (Exhausted, 100, \<lparr>stableRounds = 2, lastConversationCount = 98\<rparr>)"
proof -
  have "scrollToTopAndLoadAll (Some 0) late_probe
       = Inr (Exhausted, 100, \<lparr>stableRounds = 2, lastConversationCount = 98\<rparr>)"
    by code_simp
  with late_probe_stops show ?thesis by simp
qed

section \<open>Properties of deduplication\<close>

lemma dedup_filter_fresh:
  "fingerprint ` set (dedup_filter seen ms) \<inter> seen = {}"
  by (induction ms arbitrary: seen) (auto simp: Let_def)

lemma dedup_filter_subset:
  "set (dedup_filter seen ms) \<subseteq> set ms"
  by (induction ms arbitrary: seen) (auto simp: Let_def)

lemma dedup_filter_distinct:
  "distinct (map fingerprint (dedup_filter seen ms))"
proof (induction ms arbitrary: seen)
  case Nil
  show ?case by simp
next
  case (Cons m ms)
  have "fingerprint m \<notin> fingerprint ` set (dedup_filter (insert (fingerprint m) seen) ms)"
    using dedup_filter_fresh [of "insert (fingerprint m) seen" ms] by blast
  with Cons show ?case by (simp add: Let_def)
qed

lemma dedup_filter_length:
  "length (dedup_filter seen ms) \<le> length ms"
  by (induction ms arbitrary: seen) (auto simp: Let_def le_SucI)

lemma dedup_filter_fixpoint:
  "distinct (map fingerprint ms) \<Longrightarrow> fingerprint ` set ms \<inter> seen = {}
     \<Longrightarrow> dedup_filter seen ms = ms"
proof (induction ms arbitrary: seen)
  case Nil
  show ?case by simp
next
  case (Cons m ms)
  from Cons.prems have new: "fingerprint m \<notin> seen" by auto
  from Cons.prems have "distinct (map fingerprint ms)" by simp
  moreover from Cons.prems have "fingerprint ` set ms \<inter> insert (fingerprint m) seen = {}"
    by auto
  ultimately have "dedup_filter (insert (fingerprint m) seen) ms = ms"
    by (rule Cons.IH)
  with new show ?case by (simp add: Let_def)
qed

lemma upt_Suc_shift: "[0..<Suc n] = 0 # map Suc [0..<n]"
  by (simp add: upt_conv_Cons map_Suc_upt del: upt_Suc)

lemma nth_filter_Cons:
  "map ((!) (x # xs)) (filter P [0..<length (x # xs)])
     = (if P 0 then [x] else []) @ map ((!) xs) (filter (P \<circ> Suc) [0..<length xs])"
  by (simp add: upt_Suc_shift filter_map comp_def del: upt_Suc)

lemma dedup_filter_first_occurrences:
  "dedup_filter seen ms =
     map ((!) ms) (filter (\<lambda>i. fingerprint (ms ! i) \<notin> seen
                               \<and> (\<forall>j<i. fingerprint (ms ! j) \<noteq> fingerprint (ms ! i)))
                          [0..<length ms])"
proof (induction ms arbitrary: seen)
  case Nil
  show ?case by simp
next
  case (Cons m ms)
  let ?fp = "fingerprint m"
  let ?P = "\<lambda>i. fingerprint ((m # ms) ! i) \<notin> seen
                 \<and> (\<forall>j<i. fingerprint ((m # ms) ! j) \<noteq> fingerprint ((m # ms) ! i))"
  let ?Q = "\<lambda>S i. fingerprint (ms ! i) \<notin> S
                 \<and> (\<forall>j<i. fingerprint (ms ! j) \<noteq> fingerprint (ms ! i))"
  have split: "map ((!) (m # ms)) (filter ?P [0..<length (m # ms)])
        = (if ?P 0 then [m] else []) @ map ((!) ms) (filter (?P \<circ> Suc) [0..<length ms])"
    by (rule nth_filter_Cons)
  have head: "?P 0 \<longleftrightarrow> ?fp \<notin> seen" by simp
  show ?case
  proof (cases "?fp \<in> seen")
    case True
    have "filter (?P \<circ> Suc) [0..<length ms] = filter (?Q seen) [0..<length ms]"
      using True by (intro filter_cong refl) (auto simp: All_less_Suc2)
    with True head show ?thesis
      unfolding split by (simp add: Cons.IH [of seen])
  next
    case False
    have "filter (?P \<circ> Suc) [0..<length ms] = filter (?Q (insert ?fp seen)) [0..<length ms]"
      by (intro filter_cong refl) (auto simp: All_less_Suc2)
    with False head show ?thesis
      unfolding split by (simp add: Cons.IH [of "insert ?fp seen"] Let_def)
  qed
qed

lemma same_fingerprint: "fingerprint turn_short = fingerprint turn_long"
  by code_simp

text \<open>
  C2, as the code has it.  The fingerprint of a message is its role, then \<open>::\<close>, then
  the first 200 characters of its content with the white space at both ends of these
  characters removed.  Deduplication goes through the messages in order and keeps the
  message at position \<open>i\<close> exactly when no earlier message has its fingerprint.
\<close>

theorem deduplicateMessages_keeps_first:
  "fingerprint m = role m @ ''::'' @ trim (take 200 (content m))
   \<and> deduplicateMessages ms =
       map ((!) ms)
         (filter (\<lambda>i. \<forall>j<i. fingerprint (ms ! j) \<noteq> fingerprint (ms ! i)) [0..<length ms])"
  by (simp add: fingerprint_def deduplicateMessages_def dedup_filter_first_occurrences)

text \<open>
  Witness for C2: of two messages with one fingerprint the first is kept.
\<close>

theorem deduplicateMessages_keeps_first_witness:
  "deduplicateMessages [turn_long, turn_short] = [turn_long]"
proof -
  have "deduplicateMessages [turn_long, turn_short] =
       map ((!) [turn_long, turn_short])
         (filter (\<lambda>i. \<forall>j<i. fingerprint ([turn_long, turn_short] ! j)
                              \<noteq> fingerprint ([turn_long, turn_short] ! i))
            [0..<length [turn_long, turn_short]])"
    using deduplicateMessages_keeps_first [of turn_long "[turn_long, turn_short]"] by blast
  then show ?thesis
    by (simp add: upt_rec same_fingerprint)
qed

text \<open>
  Counterexample to C2 as stated: the first message has 199 letters, a space and one
  more letter, the second the same 199 letters.  The code cuts the content to 200
  characters and then trims, so both have one fingerprint and the second message is
  dropped; with the fingerprint of the claim (the role, then 200 characters of the
  trimmed content) the two differ and both are kept.
\<close>

theorem deduplicateMessages_not_spec:
  "deduplicateMessages [turn_long, turn_short] \<noteq> spec_deduplicate [turn_long, turn_short]"
  by code_simp

text \<open>
  C8. Deduplication is idempotent, never lengthens the list, and leaves no two messages
  with the same fingerprint.
\<close>

theorem deduplicateMessages_idempotent:
  "deduplicateMessages (deduplicateMessages ms) = deduplicateMessages ms
   \<and> length (deduplicateMessages ms) \<le> length ms
   \<and> distinct (map fingerprint (deduplicateMessages ms))"
proof -
  have d: "distinct (map fingerprint (dedup_filter {} ms))"
    by (rule dedup_filter_distinct)
  have "dedup_filter {} (dedup_filter {} ms) = dedup_filter {} ms"
    by (rule dedup_filter_fixpoint [OF d]) simp
  then show ?thesis
    by (simp add: deduplicateMessages_def dedup_filter_length dedup_filter_distinct)
qed

section \<open>Properties of the delimited-text writers\<close>

lemma double_quotes_Nil: "double_quotes [] = []"
  by (simp add: double_quotes_def)

lemma double_quotes_Cons:
  "double_quotes (c # s) =
     (if c = CHR ''\"'' then c # c # double_quotes s else c # double_quotes s)"
  by (simp add: double_quotes_def)

lemma collapse_double_quotes: "collapse_quotes (double_quotes s) = s"
proof (induction s)
  case Nil
  show ?case by (simp add: double_quotes_Nil)
next
  case (Cons c s)
  show ?case
  proof (cases "c = CHR ''\"''")
    case True
    with Cons show ?thesis by (simp add: double_quotes_Cons)
  next
    case False
    with Cons show ?thesis
      by (cases "double_quotes s") (simp_all add: double_quotes_Cons)
  qed
qed

lemma collapse_no_quotes: "CHR ''\"'' \<notin> set s \<Longrightarrow> collapse_quotes s = s"
  by (induction s rule: collapse_quotes.induct) auto

lemma strip_quotes_quoted: "strip_quotes (''\"'' @ s @ ''\"'') = s"
  by (simp add: strip_quotes_def)

lemma strip_quotes_bare: "CHR ''\"'' \<notin> set s \<Longrightarrow> strip_quotes s = s"
  by (cases s) (auto simp: strip_quotes_def)

lemma csv_decode_escapeCSV: "csv_decode (escapeCSV (JStr s)) = s"
  by (simp add: csv_decode_def escapeCSV_def Let_def strip_quotes_quoted strip_quotes_bare
        collapse_double_quotes collapse_no_quotes del: append.simps)

lemma csv_decode_esc: "csv_decode (esc (JStr s)) = s"
  by (simp add: csv_decode_def esc_def Let_def strip_quotes_quoted strip_quotes_bare
        collapse_double_quotes collapse_no_quotes del: append.simps)

text \<open>
  The escaping rule of the claim C3 holds of \<open>escapeCSV\<close>, the function of the export
  module, and both functions write the example field of the claim as it says.
\<close>

lemma escapeCSV_rule:
  "escapeCSV (JStr s) =
     (if set s \<inter> {CHR ''\"'', CHR '','', CHR ''\<newline>'', CHR 0x0D} = {} then s
      else ''\"'' @ double_quotes s @ ''\"'')"
  by (auto simp: escapeCSV_def Let_def)

lemma esc_rule:
  "esc (JStr s) =
     (if set s \<inter> {CHR ''\"'', CHR '','', CHR ''\<newline>''} = {} then s
      else ''\"'' @ double_quotes s @ ''\"'')"
  by (auto simp: esc_def Let_def)

lemma esc_eq_escapeCSV: "CHR 0x0D \<notin> set (js_String v) \<Longrightarrow> esc v = escapeCSV v"
  by (simp add: esc_def escapeCSV_def)

lemma escapeCSV_example:
  "escapeCSV (JStr ''He said \"hi\", then left'') = ''\"He said \"\"hi\"\", then left\"''"
  by (simp add: escapeCSV_def double_quotes_def)

lemma esc_example:
  "esc (JStr ''He said \"hi\", then left'') = ''\"He said \"\"hi\"\", then left\"''"
  by (simp add: esc_def double_quotes_def)

text \<open>
  C3 fails on the content script.  Its \<open>esc\<close> does not look for a carriage return: a
  content of \<open>a\<close>, a carriage return and \<open>b\<close> is written bare, in the row
  \<open>1,You,a\<close> CR \<open>b,\<close> of \<open>exportCSV\<close>, where the claim asks for a quoted field.
  \<open>escapeCSV\<close> of the export module quotes the same content.
\<close>

theorem esc_carriage_return_bare:
  "exportCSV_rows bom \<lparr>title = ''T'', messages = [cr_turn], report = None\<rparr> ! 1
     = ''1,You,a'' @ [CHR 0x0D] @ ''b,''
   \<and> esc (JStr (content cr_turn)) = content cr_turn
   \<and> escapeCSV (JStr (content cr_turn)) = ''\"'' @ content cr_turn @ ''\"''"
  by (simp add: exportCSV_rows_def esc_def escapeCSV_def cr_turn_def role_label_def or_empty_def
      double_quotes_def)

text \<open>
  C10. Reading an escaped field back (strip the surrounding double quotes, collapse the
  doubled ones) gives the string that was escaped, for \<open>escapeCSV\<close> and for \<open>esc\<close>;
  so two strings have the same escaped field only when they are equal.
\<close>

theorem escapeCSV_lossless:
  "csv_decode (escapeCSV (JStr s)) = s \<and> csv_decode (esc (JStr s)) = s
   \<and> (escapeCSV (JStr s) = escapeCSV (JStr t)) = (s = t)
   \<and> (esc (JStr s) = esc (JStr t)) = (s = t)"
proof -
  have "s = t" if "escapeCSV (JStr s) = escapeCSV (JStr t)"
    using arg_cong [OF that, of csv_decode] by (simp only: csv_decode_escapeCSV)
  moreover have "s = t" if "esc (JStr s) = esc (JStr t)"
    using arg_cong [OF that, of csv_decode] by (simp only: csv_decode_esc)
  ultimately show ?thesis
    using csv_decode_escapeCSV csv_decode_esc by blast
qed

section \<open>Properties of the linear-markup writers\<close>

lemma split_lines_not_Nil: "split_lines s \<noteq> []"
  by (induction s) (auto split: list.splits)

lemma split_lines_append_newline:
  "split_lines (xs @ CHR ''\<newline>'' # ys) = split_lines xs @ split_lines ys"
proof (induction xs)
  case Nil
  show ?case by simp
next
  case (Cons c xs)
  obtain l ls where "split_lines xs = l # ls"
    using split_lines_not_Nil [of xs] by (cases "split_lines xs") auto
  with Cons show ?case by simp
qed

lemma foldl_push: "foldl (\<lambda>lines m. lines @ f m) acc ms = acc @ concat (map f ms)"
  by (induction ms arbitrary: acc) auto

lemma demo_text:
  "exportMarkdown now demo =
     ''# Demo'' @ CHR ''\<newline>'' # [] @ CHR ''\<newline>'' #
     (''*Exported on '' @ now @ '' | 2 messages*'') @ CHR ''\<newline>'' #
     ''\<newline>---\<newline>\<newline>## You\<newline>\<newline>> Hello\<newline>\<newline>## Gemini\<newline>\<newline>Hi there\<newline>```python\<newline>print(1)\<newline>```\<newline>''"
  by (simp add: exportMarkdown_def exportMarkdown_lines_def demo_def markdown_turn_def
        role_label_def)

lemma demo_text_lib:
  "exportToMarkdown now demo =
     ''# Demo'' @ CHR ''\<newline>'' # [] @ CHR ''\<newline>'' #
     (''*Exported on '' @ now @ '' | 2 messages*'') @ CHR ''\<newline>'' #
     ''\<newline>---\<newline>\<newline>## You\<newline>\<newline>> Hello\<newline>\<newline>## Gemini\<newline>\<newline>Hi there\<newline>```python\<newline>print(1)\<newline>```\<newline>''"
  by (simp add: exportToMarkdown_def demo_def markdown_turn_lib_def role_label_def)

lemma demo_tail_lines:
  "split_lines ''\<newline>---\<newline>\<newline>## You\<newline>\<newline>> Hello\<newline>\<newline>## Gemini\<newline>\<newline>Hi there\<newline>```python\<newline>print(1)\<newline>```\<newline>''
   = ['''', ''---'', '''', ''## You'', '''', ''> Hello'', '''', ''## Gemini'', '''',
      ''Hi there'', ''```python'', ''print(1)'', ''```'', '''']"
  by simp

text \<open>
  C6. For the transcript \<open>Demo\<close> the lines of the output of \<open>exportMarkdown\<close> are
  \<open># Demo\<close>, an empty line, the line of the export date, and then the lines below, with
  \<open>## You\<close>, \<open>> Hello\<close>, \<open>## Gemini\<close> and the fenced block; \<open>exportToMarkdown\<close> writes
  the same text.  In general the writer pushes the header, then for every message its
  role header and its content, each line of a user's content after \<open>> \<close> and an
  assistant's content as it is, and then the report.
\<close>

theorem exportMarkdown_demo:
  "split_lines (exportMarkdown now demo) =
     [''# Demo'', ''''] @ split_lines (''*Exported on '' @ now @ '' | 2 messages*'')
     @ ['''', ''---'', '''', ''## You'', '''', ''> Hello'', '''', ''## Gemini'', '''',
        ''Hi there'', ''```python'', ''print(1)'', ''```'', '''']
   \<and> split_lines (exportToMarkdown now demo) = split_lines (exportMarkdown now demo)
   \<and> exportMarkdown_lines now data =
       [''# '' @ title data, '''',
        ''*Exported on '' @ now @ '' | '' @ digits (length (messages data)) @ '' messages*'',
        '''', ''---'', '''']
       @ concat (map markdown_turn (messages data))
       @ (case report data of
            None \<Rightarrow> []
          | Some r \<Rightarrow> [''---'', '''', ''# Deep Research Report: '' @ report_title r, '''',
                        report_content r, ''''])
   \<and> markdown_turn m =
       (if role m = ''user''
        then [''## You'', ''''] @ map ((@) ''> '') (split_lines (content m)) @ ['''']
        else [''## Gemini'', '''', content m, ''''])"
proof -
  have a: "split_lines (exportMarkdown now demo) =
     [''# Demo'', ''''] @ split_lines (''*Exported on '' @ now @ '' | 2 messages*'')
     @ ['''', ''---'', '''', ''## You'', '''', ''> Hello'', '''', ''## Gemini'', '''',
        ''Hi there'', ''```python'', ''print(1)'', ''```'', '''']"
    unfolding demo_text split_lines_append_newline demo_tail_lines by simp
  have b: "exportToMarkdown now demo = exportMarkdown now demo"
    unfolding demo_text demo_text_lib by (rule refl)
  have c: "exportMarkdown_lines now data =
       [''# '' @ title data, '''',
        ''*Exported on '' @ now @ '' | '' @ digits (length (messages data)) @ '' messages*'',
        '''', ''---'', '''']
       @ concat (map markdown_turn (messages data))
       @ (case report data of
            None \<Rightarrow> []
          | Some r \<Rightarrow> [''---'', '''', ''# Deep Research Report: '' @ report_title r, '''',
                        report_content r, ''''])"
    by (simp only: exportMarkdown_lines_def foldl_push append_assoc)
  have d: "markdown_turn m =
       (if role m = ''user''
        then [''## You'', ''''] @ map ((@) ''> '') (split_lines (content m)) @ ['''']
        else [''## Gemini'', '''', content m, ''''])"
    by (simp add: markdown_turn_def role_label_def)
  show ?thesis
    by (intro conjI a c d) (simp only: b)
qed

section \<open>Properties of \<open>sanitizeFilename\<close>\<close>

lemma filename_char_all:
  "\<forall>c. filename_char c =
     (c \<in> set ''abcdefghijklmnopqrstuvwxyzABCDEFGHIJKLMNOPQRSTUVWXYZ0123456789_-'')"
  by code_simp

lemma filename_char_iff:
  "filename_char c \<longleftrightarrow>
     c \<in> set ''abcdefghijklmnopqrstuvwxyzABCDEFGHIJKLMNOPQRSTUVWXYZ0123456789_-''"
  using filename_char_all by blast

text \<open>
  C9. A missing or empty title gives \<open>gemini-chat\<close>.  Every character of the result is
  an ASCII letter, a digit, an underscore or a hyphen, and the result has at most 80
  characters: it is the first 80 characters of the title with every other character
  replaced by an underscore.
\<close>

theorem sanitizeFilename_safe:
  "sanitizeFilename None = ''gemini-chat''
   \<and> sanitizeFilename (Some []) = ''gemini-chat''
   \<and> set (sanitizeFilename name)
       \<subseteq> set ''abcdefghijklmnopqrstuvwxyzABCDEFGHIJKLMNOPQRSTUVWXYZ0123456789_-''
   \<and> length (sanitizeFilename name) \<le> 80
   \<and> sanitizeFilename (Some (c # cs)) =
       take 80 (map (\<lambda>x. if x \<in> set ''abcdefghijklmnopqrstuvwxyzABCDEFGHIJKLMNOPQRSTUVWXYZ0123456789_-''
                          then x else CHR ''_'') (c # cs))"
proof -
  have a: "sanitizeFilename None = ''gemini-chat''" "sanitizeFilename (Some []) = ''gemini-chat''"
    by code_simp+
  have "set (map (\<lambda>c. if filename_char c then c else CHR ''_'') s)
          \<subseteq> set ''abcdefghijklmnopqrstuvwxyzABCDEFGHIJKLMNOPQRSTUVWXYZ0123456789_-''" for s
    by (induction s) (simp_all add: filename_char_iff)
  then have b: "set (sanitizeFilename name)
       \<subseteq> set ''abcdefghijklmnopqrstuvwxyzABCDEFGHIJKLMNOPQRSTUVWXYZ0123456789_-''"
    unfolding sanitizeFilename_def by (meson set_take_subset subset_trans)
  have c: "length (sanitizeFilename name) \<le> 80"
    by (simp add: sanitizeFilename_def)
  have d: "sanitizeFilename (Some (c # cs)) =
       take 80 (map (\<lambda>x. if x \<in> set ''abcdefghijklmnopqrstuvwxyzABCDEFGHIJKLMNOPQRSTUVWXYZ0123456789_-''
                          then x else CHR ''_'') (c # cs))"
    unfolding sanitizeFilename_def filename_char_iff by simp
  show ?thesis by (intro conjI a b c d)
qed

section \<open>Properties of the export dispatch\<close>







section \<open>Properties of the tree walker and of the assembly\<close>

lemma trim_Nil_iff: "trim s = [] \<longleftrightarrow> (\<forall>c\<in>set s. is_js_space c)"
proof
  assume "trim s = []"
  then have blank: "\<forall>c\<in>set (dropWhile is_js_space s). is_js_space c"
    by (simp add: trim_def)
  have "dropWhile is_js_space s = []"
  proof (rule ccontr)
    assume ne: "dropWhile is_js_space s \<noteq> []"
    then have "\<not> is_js_space (hd (dropWhile is_js_space s))" by (rule hd_dropWhile)
    moreover have "hd (dropWhile is_js_space s) \<in> set (dropWhile is_js_space s)"
      using ne by simp
    ultimately show False using blank by blast
  qed
  then show "\<forall>c\<in>set s. is_js_space c" by simp
next
  assume "\<forall>c\<in>set s. is_js_space c"
  then have d: "dropWhile is_js_space s = []" by simp
  show "trim s = []" unfolding trim_def d by simp
qed

lemma push_turn_content: "m \<in> set (push_turn r el) \<Longrightarrow> content m \<noteq> [] \<and> role m = r"
  by (auto simp: push_turn_def Let_def split: option.splits if_splits)

lemma push_turn_blank: "extractFormattedText Content_js el = [] \<Longrightarrow> push_turn r el = []"
  by (auto simp: push_turn_def Let_def extractFormattedText_def split: option.splits)

lemma extractContainer_content: "m \<in> set (extractContainer c) \<Longrightarrow> content m \<noteq> []"
  by (auto simp: extractContainer_def dest: push_turn_content)

lemma extractCurrentMessages_content:
  "m \<in> set (extractCurrentMessages document) \<Longrightarrow> content m \<noteq> []"
  by (auto simp: extractCurrentMessages_def foldl_push split: option.splits
           dest: extractContainer_content)

lemma blank_page_messages:
  "extractCurrentMessages blank_page
     = [\<lparr>role = ''assistant'', content = ''Hi'', timestamp = None\<rparr>]"
  by code_simp

text \<open>
  The chain of the claim C4 holds of the content script \<open>src/unnamed/part_000\<close>: the
  class hint, then the data attributes, then a previous element sibling whose text is
  shorter than 30 characters and, trimmed and in lower case, is a known language, and
  the empty tag when all three fail; and a \<open>pre\<close> element always gives a fence.
\<close>

lemma detectCodeLanguage_part000_chain:
  "detectCodeLanguage_part000 prev n =
     (case class_hint n of
        Some m \<Rightarrow> m
      | None \<Rightarrow>
          if data_hint n \<noteq> [] then data_hint n
          else (case prev of
                  None \<Rightarrow> []
                | Some p \<Rightarrow>
                    if textContent p \<noteq> [] \<and> length (textContent p) < 30
                       \<and> toLowerCase (trim (textContent p)) \<in> set knownLangs
                    then toLowerCase (trim (textContent p)) else []))"
  by (simp add: detectCodeLanguage_part000_def sibling_hint_def Let_def
           split: option.splits)

lemma processNode_pre:
  "node_id (Element ''pre'' attrs cs) \<notin> {''gce-root'', ''gce-toast''} \<or> v = Part_000
    \<Longrightarrow> processNode v ip prev (Element ''pre'' attrs cs) =
        [fence (detect v prev (Element ''pre'' attrs cs))
           (textContent (case find_first (has_tag ''code'') (Element ''pre'' attrs cs) of
                           None \<Rightarrow> Element ''pre'' attrs cs | Some codeEl \<Rightarrow> codeEl))]"
  by auto

text \<open>
  C4 fails on the content script \<open>src/content.js\<close>.  Its \<open>detectCodeLanguage\<close> stops
  after the data attributes: for a code block with no class and no data attribute after
  a paragraph \<open>Python\<close> it writes a fence with the empty tag, where the claim asks for
  the tag \<open>python\<close>.  The content script \<open>src/unnamed/part_000\<close> writes that tag.
\<close>

theorem detectCodeLanguage_ignores_sibling:
  "extractFormattedText Content_js (Some (at_root python_block))
     = ''Python\<newline>\<newline>```\<newline>print(1)\<newline>```''
   \<and> extractFormattedText Part_000 (Some (at_root python_block))
     = ''Python\<newline>\<newline>```python\<newline>print(1)\<newline>```''"
  by code_simp

text \<open>
  C5. Every message of \<open>extractCurrentMessages\<close>, and so of the deduplicated
  transcript, has a content that is not empty.  When the text extracted for the user
  query of a container is empty, the container adds no message of role \<open>user\<close>, and
  likewise for the model response and the role \<open>assistant\<close>.  The extracted text is
  empty whenever the walker pushed white space only.
\<close>

theorem empty_turns_excluded:
  "(\<forall>m\<in>set (extractCurrentMessages document). content m \<noteq> [])
   \<and> (\<forall>m\<in>set (deduplicateMessages (extractCurrentMessages document)). content m \<noteq> [])
   \<and> (extractFormattedText Content_js (user_query_element container) = []
        \<longrightarrow> (\<forall>m\<in>set (extractContainer container). role m \<noteq> ''user''))
   \<and> (extractFormattedText Content_js (model_response_element container) = []
        \<longrightarrow> (\<forall>m\<in>set (extractContainer container). role m \<noteq> ''assistant''))
   \<and> ((\<forall>c\<in>set (concat (processNode v (inside_pre e) (prev_element e) (here e))).
          is_js_space c)
        \<longrightarrow> extractFormattedText v (Some e) = [])"
proof -
  have a: "\<forall>m\<in>set (extractCurrentMessages document). content m \<noteq> []"
    using extractCurrentMessages_content by blast
  have b: "\<forall>m\<in>set (deduplicateMessages (extractCurrentMessages document)). content m \<noteq> []"
    using a dedup_filter_subset [of "{}" "extractCurrentMessages document"]
    by (auto simp: deduplicateMessages_def)
  have c: "extractFormattedText Content_js (user_query_element container) = []
        \<longrightarrow> (\<forall>m\<in>set (extractContainer container). role m \<noteq> ''user'')"
    by (auto simp: extractContainer_def push_turn_blank dest: push_turn_content)
  have d: "extractFormattedText Content_js (model_response_element container) = []
        \<longrightarrow> (\<forall>m\<in>set (extractContainer container). role m \<noteq> ''assistant'')"
    by (auto simp: extractContainer_def push_turn_blank dest: push_turn_content)
  have e: "(\<forall>c\<in>set (concat (processNode v (inside_pre e) (prev_element e) (here e))).
             is_js_space c)
        \<longrightarrow> extractFormattedText v (Some e) = []"
    by (simp add: extractFormattedText_def trim_Nil_iff)
  show ?thesis by (intro conjI a b c d e)
qed

text \<open>
  Witness for C5: a page with one turn whose user query holds white space only and whose
  model response is \<open>Hi\<close>.  The text extracted for the user query is empty, the turn
  adds no message of role \<open>user\<close>, and the page gives the one message of the assistant.
\<close>

theorem empty_turns_excluded_witness:
  "extractFormattedText Content_js (user_query_element (at_root blank_turn)) = []
   \<and> list_all (\<lambda>m. role m \<noteq> ''user'') (extractContainer (at_root blank_turn))
   \<and> extractCurrentMessages blank_page
       = [\<lparr>role = ''assistant'', content = ''Hi'', timestamp = None\<rparr>]
   \<and> content (hd (extractCurrentMessages blank_page)) \<noteq> []"
proof -
  note inst = empty_turns_excluded [of blank_page "at_root blank_turn"]
  have blank: "extractFormattedText Content_js (user_query_element (at_root blank_turn)) = []"
    by code_simp
  with inst have "\<forall>m\<in>set (extractContainer (at_root blank_turn)). role m \<noteq> ''user''"
    by blast
  then have no_user: "list_all (\<lambda>m. role m \<noteq> ''user'') (extractContainer (at_root blank_turn))"
    by (simp add: list_all_iff)
  from inst have "\<forall>m\<in>set (extractCurrentMessages blank_page). content m \<noteq> []"
    by blast
  then have "content (hd (extractCurrentMessages blank_page)) \<noteq> []"
    by (simp add: blank_page_messages)
  with blank no_user show ?thesis by (simp add: blank_page_messages)
qed

end
